theory Spec2Isabelle
  imports Main
begin

section \<open>Byte strings\<close>

text \<open>
  The sources are Python 2: a \<open>str\<close> is a byte string, modelled as \<open>string\<close>.
  The three characters that cannot be typed inside a literal are named here.
\<close>

definition dquote :: char where
  "dquote = CHR 0x22"

definition squote :: char where
  "squote = CHR 0x27"

definition newline :: char where
  "newline = CHR 0x0A"

text \<open>\<open>s.startswith(p)\<close>\<close>

fun startswith :: "string \<Rightarrow> string \<Rightarrow> bool" where
  "startswith s [] = True"
| "startswith [] (p # ps) = False"
| "startswith (c # cs) (p # ps) = (c = p \<and> startswith cs ps)"

text \<open>\<open>s.endswith(p)\<close>\<close>

definition endswith :: "string \<Rightarrow> string \<Rightarrow> bool" where
  "endswith s p = startswith (rev s) (rev p)"

text \<open>\<open>sub in s\<close>\<close>

fun contains :: "string \<Rightarrow> string \<Rightarrow> bool" where
  "contains sub [] = (sub = [])"
| "contains sub (c # cs) = (startswith (c # cs) sub \<or> contains sub cs)"

text \<open>\<open>s.lower()\<close> on bytes: the ASCII capitals.\<close>

definition lower_char :: "char \<Rightarrow> char" where
  "lower_char c =
     (case map_of (zip ''ABCDEFGHIJKLMNOPQRSTUVWXYZ'' ''abcdefghijklmnopqrstuvwxyz'') c of
        None \<Rightarrow> c
      | Some l \<Rightarrow> l)"

definition lower :: "string \<Rightarrow> string" where
  "lower s = map lower_char s"

text \<open>\<open>s.replace(a, b)\<close> for one-character \<open>a\<close> and \<open>b\<close>\<close>

definition replace_char :: "char \<Rightarrow> char \<Rightarrow> string \<Rightarrow> string" where
  "replace_char a b s = map (\<lambda>c. if c = a then b else c) s"

text \<open>\<open>s.split(c)\<close> for a one-character separator: never the empty list.\<close>

fun cons_head :: "char \<Rightarrow> string list \<Rightarrow> string list" where
  "cons_head x [] = [[x]]"
| "cons_head x (w # ws) = (x # w) # ws"

fun split_on :: "char \<Rightarrow> string \<Rightarrow> string list" where
  "split_on c [] = [[]]"
| "split_on c (x # xs) =
     (if x = c then [] # split_on c xs else cons_head x (split_on c xs))"

text \<open>\<open>sep.join(parts)\<close>\<close>

fun join_with :: "string \<Rightarrow> string list \<Rightarrow> string" where
  "join_with s [] = []"
| "join_with s [x] = x"
| "join_with s (x # y # ys) = x @ s @ join_with s (y # ys)"


section \<open>The host's \<open>os.path\<close>\<close>

text \<open>
  \<open>compiler.py\<close> and \<open>run.py\<close> use \<open>os.path.sep\<close>, \<open>os.path.normpath\<close>,
  \<open>os.path.join\<close> and \<open>os.path.dirname\<close> of the interpreter's standard library,
  which depend on the host.
  The host module is a parameter of the model.
\<close>

record os_path =
  sep :: char
  normpath :: "string \<Rightarrow> string"
  join_path :: "string \<Rightarrow> string \<Rightarrow> string"
  dirname :: "string \<Rightarrow> string"

text \<open>
  The POSIX instance, after \<open>posixpath.py\<close> of the standard library.
  \<open>normpath\<close>: the empty path is \<open>.\<close>; exactly two leading slashes are kept, any
  other number of leading slashes is one; the components are the pieces between
  slashes; the loop keeps a stack \<open>new_comps\<close>.
\<close>

definition initial_slashes :: "string \<Rightarrow> nat" where
  "initial_slashes path =
     (if startswith path ''/'' then
        (if startswith path ''//'' \<and> \<not> startswith path ''///'' then 2 else 1)
      else 0)"

definition norm_step :: "nat \<Rightarrow> string list \<Rightarrow> string \<Rightarrow> string list" where
  "norm_step slashes new_comps cmp =
     (if cmp = [] \<or> cmp = ''.'' then new_comps
      else if cmp \<noteq> ''..'' \<or> (slashes = 0 \<and> new_comps = [])
                \<or> (new_comps \<noteq> [] \<and> last new_comps = ''..'')
           then new_comps @ [cmp]
      else if new_comps \<noteq> [] then butlast new_comps
      else new_comps)"

definition norm_comps :: "nat \<Rightarrow> string list \<Rightarrow> string list" where
  "norm_comps slashes comps = foldl (norm_step slashes) [] comps"

definition posix_normpath :: "string \<Rightarrow> string" where
  "posix_normpath path =
     (if path = [] then ''.''
      else
        let slashes = initial_slashes path;
            comps = norm_comps slashes (split_on (CHR ''/'') path);
            joined = join_with ''/'' comps;
            result = (if slashes \<noteq> 0 then replicate slashes (CHR ''/'') @ joined else joined)
        in if result = [] then ''.'' else result)"

definition posix_join :: "string \<Rightarrow> string \<Rightarrow> string" where
  "posix_join a b =
     (if startswith b ''/'' then b
      else if a = [] \<or> endswith a ''/'' then a @ b
      else a @ ''/'' @ b)"

text \<open>
  \<open>dirname\<close>: the path up to its last slash; trailing slashes are stripped unless
  nothing else is left.
\<close>

definition posix_dirname :: "string \<Rightarrow> string" where
  "posix_dirname p =
     (case rev (dropWhile (\<lambda>c. c \<noteq> CHR ''/'') (rev p)) of hd_part \<Rightarrow>
        if hd_part \<noteq> [] \<and> hd_part \<noteq> replicate (length hd_part) (CHR ''/'')
        then rev (dropWhile (\<lambda>c. c = CHR ''/'') (rev hd_part))
        else hd_part)"

definition posixpath :: os_path where
  "posixpath = \<lparr> sep = CHR ''/'', normpath = posix_normpath, join_path = posix_join,
                  dirname = posix_dirname \<rparr>"


section \<open>\<open>to_absolute\<close>\<close>

definition to_absolute :: "os_path \<Rightarrow> string \<Rightarrow> string \<Rightarrow> string" where
  "to_absolute os path prefix =
     (if startswith path ''/'' \<or> contains ''://'' path then path
      else
        let absolute = prefix @ ''/'' @ path
        in if contains ''://'' absolute then absolute
           else
             let normalized = normpath os absolute
             in if sep os \<noteq> CHR ''/''
                then replace_char (sep os) (CHR ''/'') normalized
                else normalized)"

text \<open>
  The components of a path string (the non-empty pieces between slashes), and what
  it means for a list of components to be collapsed: no empty component, no \<open>.\<close>,
  \<open>..\<close> only in a leading run, and no \<open>..\<close> at all under a root.
\<close>

definition path_comps :: "string \<Rightarrow> string list" where
  "path_comps s = filter (\<lambda>c. c \<noteq> []) (split_on (CHR ''/'') s)"

fun dotdot_only_leading :: "string list \<Rightarrow> bool" where
  "dotdot_only_leading [] = True"
| "dotdot_only_leading (c # cs) =
     (if c = ''..'' then dotdot_only_leading cs else ''..'' \<notin> set cs)"

definition collapsed :: "nat \<Rightarrow> string list \<Rightarrow> bool" where
  "collapsed slashes comps =
     (''.'' \<notin> set comps \<and> [] \<notin> set comps \<and> dotdot_only_leading comps
       \<and> (if slashes = 0 then True else ''..'' \<notin> set comps))"



section \<open>Errors\<close>

text \<open>
  Exceptions are values. \<open>TypeError\<close> is raised by the interpreter itself (a call with
  a keyword the callee does not have, \<open>re.sub\<close> on \<open>None\<close>); \<open>SystemExit\<close> is
  \<open>OptionParser.error\<close>; \<open>LibraryError\<close> stands for whatever the external
  libraries raise (parse errors, XSLT errors).
\<close>

datatype error = TypeError string | SystemExit string | LibraryError string


section \<open>Documents\<close>

text \<open>
  An lxml tree. An element has a namespace URI (empty for none), a local name, its
  attributes in document order, its \<open>text\<close> (\<open>None\<close> when the element has no text)
  and its children. The text of a comment is always a string. Processing instructions
  are carried along; nothing in the sources selects them. The \<open>tail\<close> of a node, which
  the sources never read or write, is left out.
\<close>

datatype node =
    Element string string "(string \<times> string) list" "string option" "node list"
  | Comment string
  | ProcessingInstruction string string

text \<open>
  \<open>node.tag\<close>: the name in Clark notation for an element, the factory function
  \<open>etree.Comment\<close> for a comment.
\<close>

datatype tag = Name string | CommentTag | PITag

fun node_tag :: "node \<Rightarrow> tag" where
  "node_tag (Element ns name attrs txt cs) =
     (if ns = [] then Name name else Name (''{'' @ ns @ ''}'' @ name))"
| "node_tag (Comment t) = CommentTag"
| "node_tag (ProcessingInstruction target t) = PITag"

text \<open>\<open>node.get(key)\<close> and \<open>node.set(key, value)\<close> on the attributes of an element.\<close>

definition get_attr :: "(string \<times> string) list \<Rightarrow> string \<Rightarrow> string option" where
  "get_attr attrs key = map_of attrs key"

fun set_attr :: "(string \<times> string) list \<Rightarrow> string \<Rightarrow> string \<Rightarrow> (string \<times> string) list" where
  "set_attr [] key v = [(key, v)]"
| "set_attr ((k, w) # attrs) key v =
     (if k = key then (k, v) # attrs else (k, w) # set_attr attrs key v)"


section \<open>The pattern \<open>IMPORT_STYLESHEET\<close>\<close>

text \<open>
  \<^verbatim>\<open>(@import\s+(?:url\(['"]?|['"]))(.+)(['"]?\)|['"])\<close> with \<open>re.IGNORECASE\<close>, matched
  the way the backtracking matcher of \<open>re\<close> does: alternatives left to right, every
  quantifier greedy, the dot any character but a newline.

  A literal is matched without regard to case by giving it in lower and in upper
  case: a character matches when it equals either.
\<close>

definition is_space :: "char \<Rightarrow> bool" where
  "is_space c = (c = CHR '' '' \<or> c = CHR 0x09 \<or> c = CHR 0x0A \<or> c = CHR 0x0B
                  \<or> c = CHR 0x0C \<or> c = CHR 0x0D)"

definition is_quote :: "char \<Rightarrow> bool" where
  "is_quote c = (c = squote \<or> c = dquote)"

fun literal_ignorecase :: "(char \<times> char) list \<Rightarrow> string \<Rightarrow> (string \<times> string) option" where
  "literal_ignorecase [] s = Some ([], s)"
| "literal_ignorecase (p # ps) [] = None"
| "literal_ignorecase (p # ps) (c # cs) =
     (if c = fst p \<or> c = snd p then
        (case literal_ignorecase ps cs of
           None \<Rightarrow> None
         | Some (m, r) \<Rightarrow> Some (c # m, r))
      else None)"

text \<open>
  Group 3, \<^verbatim>\<open>['"]?\)|['"]\<close>: a quote and a parenthesis, or a parenthesis, or a
  quote. The result is the matched text and the rest.
\<close>

fun match_group3 :: "string \<Rightarrow> (string \<times> string) option" where
  "match_group3 [] = None"
| "match_group3 [c] = (if is_quote c \<or> c = CHR '')'' then Some ([c], []) else None)"
| "match_group3 (c # d # ds) =
     (if is_quote c then (if d = CHR '')'' then Some ([c, d], ds) else Some ([c], d # ds))
      else if c = CHR '')'' then Some ([c], d # ds)
      else None)"

text \<open>
  \<^verbatim>\<open>.*\<close> followed by group 3: the dot takes a character whenever the rest can
  still match, so the longest run wins. \<open>match_group2\<close> is \<^verbatim>\<open>(.+)\<close> followed by
  group 3: the first character is taken in any case.
\<close>

fun greedy_dots :: "string \<Rightarrow> (string \<times> string \<times> string) option" where
  "greedy_dots [] = None"
| "greedy_dots (c # cs) =
     (case (if c = newline then None else greedy_dots cs) of
        Some (g2, g3, r) \<Rightarrow> Some (c # g2, g3, r)
      | None \<Rightarrow>
          (case match_group3 (c # cs) of
             Some (g3, r) \<Rightarrow> Some ([], g3, r)
           | None \<Rightarrow> None))"

fun match_group2 :: "string \<Rightarrow> (string \<times> string \<times> string) option" where
  "match_group2 [] = None"
| "match_group2 (c # cs) =
     (if c = newline then None
      else (case greedy_dots cs of
              Some (g2, g3, r) \<Rightarrow> Some (c # g2, g3, r)
            | None \<Rightarrow> None))"

definition after_group1 :: "string \<Rightarrow> string \<Rightarrow> (string \<times> string \<times> string \<times> string) option" where
  "after_group1 g1 s =
     (case match_group2 s of
        Some (g2, g3, r) \<Rightarrow> Some (g1, g2, g3, r)
      | None \<Rightarrow> None)"

text \<open>
  The whole pattern at the start of \<open>s\<close>: groups 1, 2, 3 and the rest. \<^verbatim>\<open>\s+\<close>
  takes the whole run of white space (after a shorter run the next character is
  white space, which starts neither \<open>url(\<close> nor a quote). After \<open>url(\<close> the optional
  quote is taken first, and given back to group 2 when nothing matches behind it.
\<close>

definition at_import :: "(char \<times> char) list" where
  "at_import = zip ''@import'' ''@IMPORT''"

definition url_paren :: "(char \<times> char) list" where
  "url_paren = zip ''url('' ''URL(''"

definition IMPORT_STYLESHEET_match :: "string \<Rightarrow> (string \<times> string \<times> string \<times> string) option" where
  "IMPORT_STYLESHEET_match s =
     (case literal_ignorecase at_import s of
        None \<Rightarrow> None
      | Some (m, r1) \<Rightarrow>
          (if takeWhile is_space r1 = [] then None
           else
             (case literal_ignorecase url_paren (dropWhile is_space r1) of
                Some (u, r3) \<Rightarrow>
                  (case (case r3 of
                           [] \<Rightarrow> None
                         | q # r4 \<Rightarrow>
                             if is_quote q
                             then after_group1 (m @ takeWhile is_space r1 @ u @ [q]) r4
                             else None) of
                     Some res \<Rightarrow> Some res
                   | None \<Rightarrow> after_group1 (m @ takeWhile is_space r1 @ u) r3)
              | None \<Rightarrow>
                  (case dropWhile is_space r1 of
                     [] \<Rightarrow> None
                   | q # r3 \<Rightarrow>
                       if is_quote q
                       then after_group1 (m @ takeWhile is_space r1 @ [q]) r3
                       else None))))"

text \<open>
  \<open>IMPORT_STYLESHEET.sub(repl, text)\<close>: scan from the left; at a match emit the
  replacement and skip the matched characters, elsewhere copy the character.
  \<open>skip\<close> counts the characters of the last match still to pass.
\<close>

fun sub_scan :: "(string \<Rightarrow> string \<Rightarrow> string \<Rightarrow> string) \<Rightarrow> nat \<Rightarrow> string \<Rightarrow> string" where
  "sub_scan repl skip [] = []"
| "sub_scan repl skip (c # cs) =
     (if skip \<noteq> 0 then sub_scan repl (skip - 1) cs
      else
        (case IMPORT_STYLESHEET_match (c # cs) of
           None \<Rightarrow> c # sub_scan repl 0 cs
         | Some (g1, g2, g3, r) \<Rightarrow>
             repl g1 g2 g3 @ sub_scan repl (length g1 + length g2 + length g3 - 1) cs))"

definition IMPORT_STYLESHEET_sub :: "(string \<Rightarrow> string \<Rightarrow> string \<Rightarrow> string) \<Rightarrow> string \<Rightarrow> string" where
  "IMPORT_STYLESHEET_sub repl s = sub_scan repl 0 s"


section \<open>\<open>apply_absolute_prefix\<close>\<close>

text \<open>
  The XPath \<^verbatim>\<open>*//style | *//script | *//img | *//link | *//input | *//comment()\<close>
  is evaluated at the document node: it selects, in document order, the nodes below
  the root element that are comments or elements of one of the five names in no
  namespace.
\<close>

fun selected :: "node \<Rightarrow> bool" where
  "selected (Element ns name attrs txt cs) =
     (ns = [] \<and> (name = ''style'' \<or> name = ''script'' \<or> name = ''img''
                  \<or> name = ''link'' \<or> name = ''input''))"
| "selected (Comment t) = True"
| "selected (ProcessingInstruction target t) = False"

text \<open>The replacement function of line 84.\<close>

definition import_repl :: "os_path \<Rightarrow> string \<Rightarrow> string \<Rightarrow> string \<Rightarrow> string \<Rightarrow> string" where
  "import_repl os absolute_prefix g1 g2 g3 = g1 @ to_absolute os g2 absolute_prefix @ g3"

text \<open>
  The body of the loop for one selected node. \<open>if src:\<close> is false for a missing and
  for an empty attribute. \<open>re.sub\<close> on the \<open>None\<close> text of an element raises
  \<open>TypeError\<close>.
\<close>

fun loop_body :: "os_path \<Rightarrow> string \<Rightarrow> node \<Rightarrow> error + node" where
  "loop_body os absolute_prefix (Element ns name attrs txt cs) =
     (let t = node_tag (Element ns name attrs txt cs) in
      if t = Name ''img'' \<or> t = Name ''script'' \<or> t = Name ''input'' then
        (case get_attr attrs ''src'' of
           None \<Rightarrow> Inr (Element ns name attrs txt cs)
         | Some src \<Rightarrow>
             if src \<noteq> []
             then Inr (Element ns name (set_attr attrs ''src'' (to_absolute os src absolute_prefix)) txt cs)
             else Inr (Element ns name attrs txt cs))
      else if t = Name ''link'' then
        (case get_attr attrs ''href'' of
           None \<Rightarrow> Inr (Element ns name attrs txt cs)
         | Some href \<Rightarrow>
             if href \<noteq> []
             then Inr (Element ns name (set_attr attrs ''href'' (to_absolute os href absolute_prefix)) txt cs)
             else Inr (Element ns name attrs txt cs))
      else if t = Name ''style'' then
        (case txt of
           None \<Rightarrow> Inl (TypeError ''expected string or buffer'')
         | Some s \<Rightarrow>
             Inr (Element ns name attrs
                    (Some (IMPORT_STYLESHEET_sub (import_repl os absolute_prefix) s)) cs))
      else Inr (Element ns name attrs txt cs))"
| "loop_body os absolute_prefix (Comment t) =
     (if startswith t ''[if IE''
      then Inr (Comment (IMPORT_STYLESHEET_sub (import_repl os absolute_prefix) t))
      else Inr (Comment t))"
| "loop_body os absolute_prefix (ProcessingInstruction target t) =
     Inr (ProcessingInstruction target t)"

text \<open>
  The loop visits the selected nodes in document order and changes each in place;
  no step adds or removes a node, so the loop is a traversal of the tree: a node
  first, then its children from left to right. The first exception ends it.
\<close>

fun rewrite_tree :: "os_path \<Rightarrow> string \<Rightarrow> node \<Rightarrow> error + node"
  and rewrite_forest :: "os_path \<Rightarrow> string \<Rightarrow> node list \<Rightarrow> error + node list" where
  "rewrite_tree os p (Element ns name attrs txt cs) =
     (case (if selected (Element ns name attrs txt cs)
            then loop_body os p (Element ns name attrs txt cs)
            else Inr (Element ns name attrs txt cs)) of
        Inl e \<Rightarrow> Inl e
      | Inr (Element ns' name' attrs' txt' cs') \<Rightarrow>
          (case rewrite_forest os p cs of
             Inl e \<Rightarrow> Inl e
           | Inr ds \<Rightarrow> Inr (Element ns' name' attrs' txt' ds))
      | Inr other \<Rightarrow> Inr other)"
| "rewrite_tree os p (Comment t) = loop_body os p (Comment t)"
| "rewrite_tree os p (ProcessingInstruction target t) = Inr (ProcessingInstruction target t)"
| "rewrite_forest os p [] = Inr []"
| "rewrite_forest os p (n # ns) =
     (case rewrite_tree os p n of
        Inl e \<Rightarrow> Inl e
      | Inr n' \<Rightarrow>
          (case rewrite_forest os p ns of
             Inl e \<Rightarrow> Inl e
           | Inr ns' \<Rightarrow> Inr (n' # ns')))"

definition apply_absolute_prefix :: "os_path \<Rightarrow> node \<Rightarrow> string \<Rightarrow> error + node" where
  "apply_absolute_prefix os theme_doc absolute_prefix =
     (let absolute_prefix =
            (if endswith absolute_prefix ''/'' then butlast absolute_prefix
             else absolute_prefix)
      in case theme_doc of
           Element ns name attrs txt cs \<Rightarrow>
             (case rewrite_forest os absolute_prefix cs of
                Inl e \<Rightarrow> Inl e
              | Inr ds \<Rightarrow> Inr (Element ns name attrs txt ds))
         | other \<Rightarrow> Inr other)"


section \<open>What \<open>apply_absolute_prefix\<close> can raise on, and what it can touch\<close>

text \<open>
  A \<open>style\<close> element in no namespace without text, here or below.
\<close>

fun textless_style :: "node \<Rightarrow> bool"
  and textless_style_list :: "node list \<Rightarrow> bool" where
  "textless_style (Element ns name attrs txt cs) =
     ((ns = [] \<and> name = ''style'' \<and> txt = None) \<or> textless_style_list cs)"
| "textless_style (Comment t) = False"
| "textless_style (ProcessingInstruction target t) = False"
| "textless_style_list [] = False"
| "textless_style_list (n # ns) = (textless_style n \<or> textless_style_list ns)"

text \<open>
  A node with everything the loop may rewrite blanked out: the \<open>src\<close> of an
  \<open>img\<close>, \<open>script\<close> or \<open>input\<close>, the \<open>href\<close> of a \<open>link\<close>, the text of a
  \<open>style\<close>, and the text of a comment that starts with \<open>[if IE\<close>.
\<close>

definition blank_attr :: "string \<Rightarrow> (string \<times> string) list \<Rightarrow> (string \<times> string) list" where
  "blank_attr key attrs = map (\<lambda>(k, v). if k = key then (k, []) else (k, v)) attrs"

fun skeleton :: "node \<Rightarrow> node" where
  "skeleton (Element ns name attrs txt cs) =
     (if ns = [] \<and> (name = ''img'' \<or> name = ''script'' \<or> name = ''input'')
      then Element ns name (blank_attr ''src'' attrs) txt (map skeleton cs)
      else if ns = [] \<and> name = ''link''
      then Element ns name (blank_attr ''href'' attrs) txt (map skeleton cs)
      else if ns = [] \<and> name = ''style''
      then Element ns name attrs None (map skeleton cs)
      else Element ns name attrs txt (map skeleton cs))"
| "skeleton (Comment t) = (if startswith t ''[if IE'' then Comment ''[if IE'' else Comment t)"
| "skeleton (ProcessingInstruction target t) = ProcessingInstruction target t"



section \<open>The log\<close>

text \<open>
  The module-level \<open>logger\<close> is state that outlives a call: a call takes the records
  emitted so far and returns them with its own appended.
\<close>

datatype level = DEBUG | INFO | WARNING

type_synonym log = "(level \<times> string) list"


section \<open>\<open>update_namespace\<close>\<close>

text \<open>
  \<open>namespaces\<close> is a dictionary of \<open>utils.py\<close>; the two entries used here are
  parameters. The URIs contain no quote, so the formatted XPath
  \<^verbatim>\<open>//*[namespace-uri()='...']\<close> selects the elements of the document, root
  included, whose namespace is the given one.
\<close>

record namespaces =
  old :: string
  xdv :: string

fun elements_in :: "string \<Rightarrow> node \<Rightarrow> node list" where
  "elements_in uri (Element ns name attrs txt cs) =
     (if ns = uri then [Element ns name attrs txt cs] else [])
       @ concat (map (elements_in uri) cs)"
| "elements_in uri (Comment t) = []"
| "elements_in uri (ProcessingInstruction target t) = []"

definition deprecation_message :: "namespaces \<Rightarrow> string" where
  "deprecation_message nsp =
     ''The '' @ old nsp @ '' namespace is deprecated, use '' @ xdv nsp @ '' instead.''"

text \<open>
  \<open>update_transform\<close> is the module-level transform compiled from
  \<open>update-namespace.xsl\<close>; here it is an argument.
\<close>

definition update_namespace :: "namespaces \<Rightarrow> (node \<Rightarrow> node) \<Rightarrow> node \<Rightarrow> log \<Rightarrow> node \<times> log" where
  "update_namespace nsp update_transform rules lg =
     (if elements_in (old nsp) rules \<noteq> []
      then (update_transform rules, lg @ [(WARNING, deprecation_message nsp)])
      else (rules, lg))"

text \<open>
  Modelled from the spec: \<open>update-namespace.xsl\<close> is not among the sources. The
  specification asks for "a new rules document in the current namespace with
  structurally equivalent rules": every element of the deprecated namespace is put
  into the current one, and everything else is copied.
\<close>

fun update_transform_spec :: "namespaces \<Rightarrow> node \<Rightarrow> node" where
  "update_transform_spec nsp (Element ns name attrs txt cs) =
     Element (if ns = old nsp then xdv nsp else ns) name attrs txt
       (map (update_transform_spec nsp) cs)"
| "update_transform_spec nsp (Comment t) = Comment t"
| "update_transform_spec nsp (ProcessingInstruction target t) = ProcessingInstruction target t"

text \<open>
  Structural equivalence of two rules documents: the same tree, node for node, with
  the same names, attributes and text, where an element of the deprecated namespace
  may stand in the current one.
\<close>

fun same_rules :: "namespaces \<Rightarrow> node \<Rightarrow> node \<Rightarrow> bool"
  and same_rules_list :: "namespaces \<Rightarrow> node list \<Rightarrow> node list \<Rightarrow> bool" where
  "same_rules nsp (Element ns name attrs txt cs) n =
     (case n of
        Element ns' name' attrs' txt' cs' \<Rightarrow>
          (ns' = ns \<or> (ns = old nsp \<and> ns' = xdv nsp)) \<and> name' = name \<and> attrs' = attrs
            \<and> txt' = txt \<and> same_rules_list nsp cs cs'
      | _ \<Rightarrow> False)"
| "same_rules nsp (Comment t) n = (n = Comment t)"
| "same_rules nsp (ProcessingInstruction target t) n = (n = ProcessingInstruction target t)"
| "same_rules_list nsp [] ms = (ms = [])"
| "same_rules_list nsp (n # ns) ms =
     (case ms of [] \<Rightarrow> False | m # ms' \<Rightarrow> same_rules nsp n m \<and> same_rules_list nsp ns ms')"


section \<open>Resolvers\<close>

text \<open>
  A resolver answers a request with \<open>resolve_string\<close> or \<open>resolve_filename\<close>, or
  declines by returning \<open>None\<close>.
\<close>

datatype resolver = CompileResolver string "string option" | RunResolver string

datatype resolved = ResolveString string | ResolveFilename string

fun CompileResolver_resolve :: "string \<Rightarrow> string option \<Rightarrow> string \<Rightarrow> resolved option" where
  "CompileResolver_resolve rules extra url =
     (if url = ''__xdv__rules'' then Some (ResolveString rules)
      else if url = ''__xdv__extra'' \<and> extra \<noteq> None then Some (ResolveString (the extra))
      else None)"

fun RunResolver_resolve :: "os_path \<Rightarrow> string \<Rightarrow> string \<Rightarrow> resolved option" where
  "RunResolver_resolve os directory url =
     (if contains ''://'' url \<or> startswith url ''/'' then Some (ResolveFilename url)
      else Some (ResolveFilename (join_path os directory url)))"

fun resolve :: "os_path \<Rightarrow> resolver \<Rightarrow> string \<Rightarrow> resolved option" where
  "resolve os (CompileResolver rules extra) url = CompileResolver_resolve rules extra url"
| "resolve os (RunResolver directory) url = RunResolver_resolve os directory url"


section \<open>Parsers and access control\<close>

text \<open>
  A parser object carries its settings and its registry of resolvers, to which
  \<open>resolvers.add\<close> adds. The registry is a set; two resolvers holding the same
  bytes answer alike and count as one.
\<close>

record parser =
  html :: bool
  recover :: bool
  resolvers :: "resolver set"

definition XMLParser :: "bool \<Rightarrow> parser" where
  "XMLParser r = \<lparr> html = False, recover = r, resolvers = {} \<rparr>"

definition HTMLParser :: parser where
  "HTMLParser = \<lparr> html = True, recover = True, resolvers = {} \<rparr>"

record access_control =
  read_file :: bool
  write_file :: bool
  create_dir :: bool
  read_network :: bool
  write_network :: bool

definition XSLTAccessControl :: "bool \<Rightarrow> bool \<Rightarrow> bool \<Rightarrow> bool \<Rightarrow> bool \<Rightarrow> access_control" where
  "XSLTAccessControl rfile wfile cdir rnet wnet =
     \<lparr> read_file = rfile, write_file = wfile, create_dir = cdir,
       read_network = rnet, write_network = wnet \<rparr>"


section \<open>The libraries\<close>

text \<open>
  What the two modules call and do not define: lxml (\<open>etree.parse\<close>,
  \<open>ElementTree.xinclude\<close>, \<open>etree.tostring\<close>, \<open>etree.XSLT\<close> and the application of
  a transform, which also yields its \<open>error_log\<close>, and \<open>ElementTree.write\<close>), the
  selector translator \<open>cssrules.convert_css_selectors\<close>, the constants of
  \<open>utils.py\<close>, the compiled \<open>update-namespace.xsl\<close>, the path of \<open>compiler.xsl\<close> and
  the host's \<open>os.path\<close>. Each may raise. \<open>'x\<close> is the type of a compiled
  transform. A transform runs with the registry of the parser that read its
  stylesheet, as it is when the transform is applied.
\<close>

datatype source = File string | Stdin

record 'x library =
  host :: os_path
  parse :: "parser \<Rightarrow> source \<Rightarrow> error + node"
  run_xinclude :: "node \<Rightarrow> error + node"
  tostring :: "node \<Rightarrow> string"
  serialize :: "node \<Rightarrow> bool \<Rightarrow> string"
  new_XSLT :: "node \<Rightarrow> access_control \<Rightarrow> error + 'x"
  apply_XSLT :: "'x \<Rightarrow> resolver set \<Rightarrow> node \<Rightarrow> (string \<rightharpoonup> string) \<Rightarrow> error + node \<times> string list"
  convert_css_selectors :: "node \<Rightarrow> error + node"
  update_transform :: "node \<Rightarrow> node"
  namespaces_of :: namespaces
  COMPILER_PATH :: string
  AC_READ_FILE :: access_control
  AC_READ_NET :: access_control

fun bind :: "error + 'a \<Rightarrow> ('a \<Rightarrow> error + 'b) \<Rightarrow> error + 'b" where
  "bind (Inl e) f = Inl e"
| "bind (Inr x) f = f x"

text \<open>The truth value of an optional string: \<open>None\<close> and the empty string are false.\<close>

fun truthy :: "string option \<Rightarrow> bool" where
  "truthy None = False"
| "truthy (Some s) = (s \<noteq> [])"

text \<open>\<open>etree.parse\<close> of \<open>None\<close> raises \<open>TypeError\<close>.\<close>

fun parse_path :: "'x library \<Rightarrow> parser \<Rightarrow> string option \<Rightarrow> error + node" where
  "parse_path lib p None = Inl (TypeError ''cannot parse from NoneType'')"
| "parse_path lib p (Some path) = parse lib p (File path)"


section \<open>\<open>compile_theme\<close>\<close>

record compile_args =
  rules :: "string option"
  theme :: "string option"
  extra :: "string option"
  css :: bool
  xinclude :: bool
  absolute_prefix :: "string option"
  update :: bool
  trace :: bool
  includemode :: "string option"
  parser :: "parser option"
  compiler_parser :: "parser option"
  rules_parser :: "parser option"
  access_control :: "access_control option"

text \<open>The defaults of the signature.\<close>

definition compile_theme_defaults :: "string option \<Rightarrow> string option \<Rightarrow> compile_args" where
  "compile_theme_defaults r t =
     \<lparr> rules = r, theme = t, extra = None, css = True, xinclude = True,
       absolute_prefix = None, update = True, trace = False, includemode = None,
       parser = None, compiler_parser = None, rules_parser = None, access_control = None \<rparr>"

text \<open>Lines 118 to 134: the rules document and the theme document.\<close>

definition prepare_rules :: "'x library \<Rightarrow> compile_args \<Rightarrow> log \<Rightarrow> error + node \<times> log" where
  "prepare_rules lib a lg =
     bind (parse_path lib (case rules_parser a of None \<Rightarrow> XMLParser False | Some p \<Rightarrow> p) (rules a))
       (\<lambda>rules_doc.
     bind (if xinclude a then run_xinclude lib rules_doc else Inr rules_doc)
       (\<lambda>rules_doc.
     case (if update a
           then update_namespace (namespaces_of lib) (update_transform lib) rules_doc lg
           else (rules_doc, lg)) of
       (rules_doc, lg) \<Rightarrow>
     bind (if css a then convert_css_selectors lib rules_doc else Inr rules_doc)
       (\<lambda>rules_doc. Inr (rules_doc, lg))))"

definition prepare_theme :: "'x library \<Rightarrow> compile_args \<Rightarrow> error + node" where
  "prepare_theme lib a =
     bind (parse_path lib (case parser a of None \<Rightarrow> HTMLParser | Some p \<Rightarrow> p) (theme a))
       (\<lambda>theme_doc.
     if truthy (absolute_prefix a)
     then apply_absolute_prefix (host lib) theme_doc (the (absolute_prefix a))
     else Inr theme_doc)"

text \<open>Lines 142 to 151: the parameters of the transform.\<close>

definition compile_params :: "compile_args \<Rightarrow> (string \<rightharpoonup> string)" where
  "compile_params a =
     (let params = [''rulesuri'' \<mapsto> [squote] @ ''__xdv__rules'' @ [squote]];
          params = (if truthy (extra a)
                    then params(''extraurl'' \<mapsto> [squote] @ ''__xdv__extra'' @ [squote])
                    else params);
          params = (if trace a then params(''trace'' \<mapsto> ''1'') else params);
          params = (if truthy (includemode a)
                    then params(''includemode'' \<mapsto> [squote] @ the (includemode a) @ [squote])
                    else params)
      in params)"

text \<open>Lines 143 to 147: the resolver of this call.\<close>

definition make_resolver :: "'x library \<Rightarrow> compile_args \<Rightarrow> node \<Rightarrow> error + resolver" where
  "make_resolver lib a rules_doc =
     (if truthy (extra a)
      then bind (parse lib (XMLParser False) (File (the (extra a)))) (\<lambda>extra_doc.
             Inr (CompileResolver (tostring lib rules_doc) (Some (tostring lib extra_doc))))
      else Inr (CompileResolver (tostring lib rules_doc) None))"

text \<open>
  The result of a call: the generated transform, the log, and the compiler parser
  as the call leaves it (with the resolver of this call registered). An exception
  ends the call; the result is then the exception alone.
\<close>

definition compile_theme :: "'x library \<Rightarrow> compile_args \<Rightarrow> log \<Rightarrow> error + node \<times> log \<times> parser" where
  "compile_theme lib a lg =
     bind (prepare_rules lib a lg) (\<lambda>(rules_doc, lg).
     bind (prepare_theme lib a) (\<lambda>theme_doc.
     bind (parse lib (case compiler_parser a of None \<Rightarrow> XMLParser False | Some p \<Rightarrow> p)
             (File (COMPILER_PATH lib))) (\<lambda>compiler_doc.
     bind (new_XSLT lib compiler_doc
             (case access_control a of
                None \<Rightarrow> XSLTAccessControl True False False False False
              | Some ac \<Rightarrow> ac)) (\<lambda>compiler_transform.
     bind (make_resolver lib a rules_doc) (\<lambda>resolver.
     case (case compiler_parser a of None \<Rightarrow> XMLParser False | Some p \<Rightarrow> p) of cp \<Rightarrow>
     case cp\<lparr> resolvers := insert resolver (resolvers cp) \<rparr> of cp \<Rightarrow>
     bind (apply_XSLT lib compiler_transform (resolvers cp) theme_doc (compile_params a))
       (\<lambda>(compiled, error_log).
          Inr (compiled, lg @ map (\<lambda>msg. (INFO, msg)) error_log, cp)))))))"


section \<open>Calling \<open>compile_theme\<close> with keywords\<close>

text \<open>
  The parameters of \<open>compile_theme\<close> (line 86 of \<open>compiler.py\<close>). A call that
  passes a keyword not among them raises \<open>TypeError\<close> before the body runs.
\<close>

definition compile_theme_parameters :: "string list" where
  "compile_theme_parameters =
     [''rules'', ''theme'', ''extra'', ''css'', ''xinclude'', ''absolute_prefix'', ''update'',
      ''trace'', ''includemode'', ''parser'', ''compiler_parser'', ''rules_parser'',
      ''access_control'']"

definition call_compile_theme ::
    "'x library \<Rightarrow> string list \<Rightarrow> compile_args \<Rightarrow> log \<Rightarrow> error + node \<times> log \<times> parser" where
  "call_compile_theme lib keywords a lg =
     (case filter (\<lambda>k. k \<notin> set compile_theme_parameters) keywords of
        k # ks \<Rightarrow>
          Inl (TypeError (''compile_theme() got an unexpected keyword argument ''
                          @ [squote] @ k @ [squote]))
      | [] \<Rightarrow> compile_theme lib a lg)"


section \<open>\<open>run.main\<close>\<close>

text \<open>
  The options as \<open>parse_args\<close> returns them, and the positional arguments. The
  option parser is built by \<open>utils._createOptionParser\<close>; the options are taken to
  carry every attribute that \<open>main\<close> reads. \<open>op.error\<close> exits. \<open>options.trace\<close> only
  sets the level of the logger, which the log here does not filter by. The result is
  what \<open>write\<close> writes: the target, the bytes, and the log.
\<close>

record run_options =
  opt_xsl :: "string option"
  opt_rules :: "string option"
  opt_theme :: "string option"
  opt_extra :: "string option"
  opt_trace :: bool
  opt_read_network :: bool
  opt_absolute_prefix :: "string option"
  opt_includemode :: "string option"
  opt_output :: string
  opt_pretty_print :: bool

text \<open>Lines 45 to 60: the positional arguments.\<close>

definition run_arguments :: "run_options \<Rightarrow> string list \<Rightarrow> error + run_options \<times> string" where
  "run_arguments options args =
     bind (if length args > 2 then Inl (SystemExit ''Wrong number of arguments.'')
           else if length args = 2 then
             (if truthy (opt_xsl options) \<or> truthy (opt_rules options)
              then Inl (SystemExit ''Wrong number of arguments.'')
              else if endswith (lower (args ! 0)) ''.xsl''
              then Inr (options\<lparr> opt_xsl := Some (args ! 0) \<rparr>, args ! 1)
              else Inr (options\<lparr> opt_rules := Some (args ! 0) \<rparr>, args ! 1))
           else if length args = 1 then Inr (options, args ! 0)
           else Inl (SystemExit ''Wrong number of arguments.''))
       (\<lambda>(options, content).
          if opt_rules options = None \<and> opt_xsl options = None
          then Inl (SystemExit ''Must supply either options or rules'')
          else Inr (options, content))"

text \<open>Lines 68 to 79: the transform, read or compiled.\<close>

definition run_transform :: "'x library \<Rightarrow> run_options \<Rightarrow> parser \<Rightarrow> log \<Rightarrow> error + node \<times> log" where
  "run_transform lib options p lg =
     (if opt_xsl options \<noteq> None
      then bind (parse lib (XMLParser False) (File (the (opt_xsl options))))
             (\<lambda>output_xslt. Inr (output_xslt, lg))
      else bind (call_compile_theme lib
                   [''rules'', ''theme'', ''extra'', ''parser'', ''read_network'',
                    ''absolute_prefix'', ''includemode'']
                   ((compile_theme_defaults (opt_rules options) (opt_theme options))
                      \<lparr> extra := opt_extra options, parser := Some p,
                        absolute_prefix := opt_absolute_prefix options,
                        includemode := opt_includemode options \<rparr>)
                   lg)
             (\<lambda>(output_xslt, lg, cp). Inr (output_xslt, lg)))"

definition run_main :: "'x library \<Rightarrow> run_options \<Rightarrow> string list \<Rightarrow> log \<Rightarrow> error + string \<times> string \<times> log" where
  "run_main lib options args lg =
     bind (run_arguments options args) (\<lambda>(options, content).
     case HTMLParser\<lparr> resolvers :=
            insert (RunResolver (dirname (host lib) content)) (resolvers HTMLParser) \<rparr> of p \<Rightarrow>
     bind (run_transform lib options p lg) (\<lambda>(output_xslt, lg).
     bind (new_XSLT lib output_xslt
             (if opt_read_network options then AC_READ_NET lib else AC_READ_FILE lib))
       (\<lambda>transform.
     bind (parse lib p (if content = ''-'' then Stdin else File content)) (\<lambda>content_doc.
     bind (apply_XSLT lib transform {} content_doc Map.empty) (\<lambda>(output_html, error_log).
       Inr (opt_output options,
            serialize lib output_html (opt_pretty_print options),
            lg @ map (\<lambda>msg. (WARNING, msg)) error_log))))))"


section \<open>Properties of \<open>to_absolute\<close>\<close>

lemma split_on_not_Nil: "split_on c s \<noteq> []"
  by (induction s) (auto simp: neq_Nil_conv elim: cons_head.elims)

lemma cons_head_append: "l \<noteq> [] \<Longrightarrow> cons_head x (l @ m) = cons_head x l @ m"
  by (cases l) auto

lemma split_on_append: "split_on c (a @ c # b) = split_on c a @ split_on c b"
  by (induction a) (auto simp: cons_head_append split_on_not_Nil)

lemma split_on_no_sep: "c \<notin> set s \<Longrightarrow> split_on c s = [s]"
  by (induction s) auto

lemma split_on_comp_no_sep: "w \<in> set (split_on c s) \<Longrightarrow> c \<notin> set w"
proof (induction s arbitrary: w)
  case Nil then show ?case by simp
next
  case (Cons x xs)
  show ?case
  proof (cases "x = c")
    case True with Cons show ?thesis by auto
  next
    case False
    obtain h t where ht: "split_on c xs = h # t"
      using split_on_not_Nil[of c xs] by (cases "split_on c xs") auto
    with Cons False show ?thesis by auto
  qed
qed

lemma dotdot_all:
  "dotdot_only_leading cs \<Longrightarrow> cs \<noteq> [] \<Longrightarrow> last cs = ''..'' \<Longrightarrow> set cs \<subseteq> {''..''}"
proof (induction cs)
  case Nil then show ?case by simp
next
  case (Cons a cs)
  show ?case
  proof (cases "cs = []")
    case True with Cons.prems show ?thesis by simp
  next
    case False
    then have "last cs \<in> set cs" by simp
    with Cons False show ?thesis by (auto split: if_splits)
  qed
qed

lemma dotdot_snoc:
  "dotdot_only_leading (cs @ [c]) = (dotdot_only_leading cs \<and> (c = ''..'' \<longrightarrow> set cs \<subseteq> {''..''}))"
  by (induction cs) auto

lemma dotdot_butlast: "dotdot_only_leading cs \<Longrightarrow> dotdot_only_leading (butlast cs)"
  by (induction cs) (auto dest: in_set_butlastD)

lemma collapsed_step:
  assumes "collapsed n cs" shows "collapsed n (norm_step n cs c)"
proof -
  have a: "cs \<noteq> [] \<Longrightarrow> last cs = ''..'' \<Longrightarrow> ''..'' \<in> set cs"
    using last_in_set[of cs] by auto
  have b: "cs \<noteq> [] \<Longrightarrow> last cs = ''..'' \<Longrightarrow> dotdot_only_leading cs \<Longrightarrow> set cs \<subseteq> {''..''}"
    by (rule dotdot_all)
  show ?thesis
    using assms a b
    by (auto simp: collapsed_def norm_step_def dotdot_snoc dotdot_butlast
             dest: in_set_butlastD split: if_splits)
qed

lemma collapsed_foldl: "collapsed n acc \<Longrightarrow> collapsed n (foldl (norm_step n) acc cs)"
  by (induction cs arbitrary: acc) (auto simp: collapsed_step)

lemma collapsed_norm_comps: "collapsed n (norm_comps n cs)"
  unfolding norm_comps_def by (rule collapsed_foldl) (simp add: collapsed_def)

lemma norm_step_subset: "set (norm_step n acc c) \<subseteq> insert c (set acc)"
  by (auto simp: norm_step_def dest: in_set_butlastD)

lemma norm_foldl_subset: "set (foldl (norm_step n) acc cs) \<subseteq> set acc \<union> set cs"
proof (induction cs arbitrary: acc)
  case Nil then show ?case by simp
next
  case (Cons c cs)
  have "set (foldl (norm_step n) (norm_step n acc c) cs) \<subseteq> set (norm_step n acc c) \<union> set cs"
    by (rule Cons.IH)
  with norm_step_subset[of n acc c] show ?case by auto
qed

lemma norm_comps_subset: "set (norm_comps n cs) \<subseteq> set cs"
  using norm_foldl_subset[of n "[]" cs] by (simp add: norm_comps_def)

lemma path_comps_append: "path_comps (a @ CHR ''/'' # b) = path_comps a @ path_comps b"
  by (simp add: path_comps_def split_on_append)

lemma path_comps_single: "CHR ''/'' \<notin> set s \<Longrightarrow> s \<noteq> [] \<Longrightarrow> path_comps s = [s]"
  by (simp add: path_comps_def split_on_no_sep)

lemma path_comps_join:
  "\<forall>c \<in> set cs. c \<noteq> [] \<and> CHR ''/'' \<notin> set c \<Longrightarrow> path_comps (join_with ''/'' cs) = cs"
proof (induction "''/''" cs rule: join_with.induct)
  case 1 then show ?case by (simp add: path_comps_def)
next
  case (2 x) then show ?case by (simp add: path_comps_single)
next
  case (3 x y ys)
  then show ?case by (simp add: path_comps_append path_comps_single)
qed

lemma path_comps_slashes: "path_comps (replicate n (CHR ''/'') @ s) = path_comps s"
proof (induction n)
  case 0 then show ?case by simp
next
  case (Suc n)
  have "path_comps (CHR ''/'' # (replicate n (CHR ''/'') @ s)) = path_comps [] @ path_comps (replicate n (CHR ''/'') @ s)"
    using path_comps_append[of "[]"] by simp
  with Suc show ?case by (simp add: path_comps_def)
qed

lemma posix_normpath_collapsed:
  "posix_normpath s = ''.'' \<or> collapsed (initial_slashes s) (path_comps (posix_normpath s))"
proof (cases "s = []")
  case True then show ?thesis by (simp add: posix_normpath_def)
next
  case False
  let ?n = "initial_slashes s"
  let ?cs = "norm_comps ?n (split_on (CHR ''/'') s)"
  have col: "collapsed ?n ?cs" by (rule collapsed_norm_comps)
  have "\<forall>c \<in> set ?cs. c \<noteq> [] \<and> CHR ''/'' \<notin> set c"
    using col norm_comps_subset[of ?n "split_on (CHR ''/'') s"] split_on_comp_no_sep[of _ "CHR ''/''" s]
    by (auto simp: collapsed_def)
  then have pc: "path_comps (join_with ''/'' ?cs) = ?cs" by (rule path_comps_join)
  show ?thesis
    using False col pc by (auto simp: posix_normpath_def Let_def path_comps_slashes)
qed

text \<open>
  Claim C1. For a relative reference \<open>r\<close> (not starting with \<open>/\<close>, not containing
  \<open>://\<close>) and any prefix \<open>p\<close>: if the join \<open>p/r\<close> contains \<open>://\<close> it is returned
  as it is; otherwise \<open>to_absolute\<close> returns the host's \<open>normpath\<close> of the join with
  the host's separator replaced by \<open>/\<close>, so no host separator other than \<open>/\<close>
  remains. On a POSIX host the result is \<open>posix_normpath\<close> of the join, and it is
  either \<open>.\<close> or a path whose components are collapsed: none is empty or \<open>.\<close>,
  \<open>..\<close> stands only in a leading run and not at all under a root.
\<close>

theorem to_absolute_relative:
  assumes "\<not> startswith r ''/''" and "\<not> contains ''://'' r"
  shows "to_absolute os r p =
           (if contains ''://'' (p @ ''/'' @ r) then p @ ''/'' @ r
            else replace_char (sep os) (CHR ''/'') (normpath os (p @ ''/'' @ r)))
         \<and> (\<not> contains ''://'' (p @ ''/'' @ r) \<and> sep os \<noteq> CHR ''/''
              \<longrightarrow> sep os \<notin> set (to_absolute os r p))
         \<and> (\<not> contains ''://'' (p @ ''/'' @ r)
              \<longrightarrow> to_absolute posixpath r p = posix_normpath (p @ ''/'' @ r)
                \<and> (to_absolute posixpath r p = ''.''
                     \<or> collapsed (initial_slashes (p @ ''/'' @ r))
                          (path_comps (to_absolute posixpath r p))))"
proof -
  have id: "replace_char (CHR ''/'') (CHR ''/'') s = s" for s
    by (induction s) (auto simp: replace_char_def)
  have 1: "to_absolute os r p =
           (if contains ''://'' (p @ ''/'' @ r) then p @ ''/'' @ r
            else replace_char (sep os) (CHR ''/'') (normpath os (p @ ''/'' @ r)))"
    using assms by (simp add: to_absolute_def Let_def id)
  have 2: "sep os \<noteq> CHR ''/'' \<Longrightarrow> \<not> contains ''://'' (p @ ''/'' @ r)
             \<Longrightarrow> sep os \<notin> set (to_absolute os r p)"
    using assms by (auto simp: to_absolute_def Let_def replace_char_def)
  have 3: "\<not> contains ''://'' (p @ ''/'' @ r)
             \<Longrightarrow> to_absolute posixpath r p = posix_normpath (p @ ''/'' @ r)"
    using assms by (simp add: to_absolute_def Let_def posixpath_def)
  show ?thesis
    using 1 2 3 posix_normpath_collapsed[of "p @ ''/'' @ r"] by auto
qed

theorem to_absolute_relative_witness:
  "\<not> startswith ''images/../foo.jpg'' ''/'' \<and> \<not> contains ''://'' ''images/../foo.jpg''
   \<and> \<not> contains ''://'' (''/static'' @ ''/'' @ ''images/../foo.jpg'')
   \<and> to_absolute posixpath ''images/../foo.jpg'' ''/static''
       = posix_normpath (''/static'' @ ''/'' @ ''images/../foo.jpg'')
   \<and> to_absolute posixpath ''images/../foo.jpg'' ''/static'' = ''/static/foo.jpg''
   \<and> collapsed 1 (path_comps (to_absolute posixpath ''images/../foo.jpg'' ''/static''))"
proof -
  have h1: "\<not> startswith ''images/../foo.jpg'' ''/''" by simp
  have h2: "\<not> contains ''://'' ''images/../foo.jpg''" by simp
  have h3: "\<not> contains ''://'' (''/static'' @ ''/'' @ ''images/../foo.jpg'')" by simp
  have n: "initial_slashes (''/static'' @ ''/'' @ ''images/../foo.jpg'') = 1"
    by (simp add: initial_slashes_def)
  have v: "posix_normpath (''/static'' @ ''/'' @ ''images/../foo.jpg'') = ''/static/foo.jpg''"
    by (simp add: posix_normpath_def initial_slashes_def norm_comps_def norm_step_def)
  from to_absolute_relative[OF h1 h2, of posixpath "''/static''"] h3
  have t: "to_absolute posixpath ''images/../foo.jpg'' ''/static''
             = posix_normpath (''/static'' @ ''/'' @ ''images/../foo.jpg'')
           \<and> (to_absolute posixpath ''images/../foo.jpg'' ''/static'' = ''.''
                \<or> collapsed (initial_slashes (''/static'' @ ''/'' @ ''images/../foo.jpg''))
                     (path_comps (to_absolute posixpath ''images/../foo.jpg'' ''/static'')))"
    by blast
  from t have t1: "to_absolute posixpath ''images/../foo.jpg'' ''/static''
             = posix_normpath (''/static'' @ ''/'' @ ''images/../foo.jpg'')"
    by (rule conjunct1)
  from t1 v have e: "to_absolute posixpath ''images/../foo.jpg'' ''/static'' = ''/static/foo.jpg''"
    by (rule trans)
  from t e n have c: "collapsed 1 (path_comps (to_absolute posixpath ''images/../foo.jpg'' ''/static''))"
    by auto
  show ?thesis by (intro conjI) (rule h1 h2 h3 t1 e c)+
qed

text \<open>
  Claim C2. A reference that starts with \<open>/\<close> or contains \<open>://\<close> is returned
  unchanged, whatever the prefix; rewriting it again (with any prefix) changes nothing.
\<close>

theorem to_absolute_unchanged:
  assumes "startswith r ''/'' \<or> contains ''://'' r"
  shows "to_absolute os r p = r \<and> to_absolute os (to_absolute os r p) p' = to_absolute os r p"
  using assms by (simp add: to_absolute_def)

theorem to_absolute_unchanged_witness:
  "to_absolute posixpath ''/css/main.css'' ''/static'' = ''/css/main.css''
   \<and> to_absolute posixpath ''http://example.org/a/../b.js'' ''/static'' = ''http://example.org/a/../b.js''"
  using to_absolute_unchanged[of "''/css/main.css''" posixpath "''/static''" "''/static''"]
        to_absolute_unchanged[of "''http://example.org/a/../b.js''" posixpath "''/static''" "''/static''"]
  by simp


section \<open>Properties of \<open>update_namespace\<close>\<close>

lemma elements_in_update_transform_spec:
  "old nsp \<noteq> xdv nsp \<Longrightarrow> elements_in (old nsp) (update_transform_spec nsp n) = []"
  by (induction n) auto

lemma same_rules_list_map:
  "(\<And>n. n \<in> set ns \<Longrightarrow> same_rules nsp n (f n)) \<Longrightarrow> same_rules_list nsp ns (map f ns)"
  by (induction ns) auto

lemma same_rules_update_transform_spec: "same_rules nsp n (update_transform_spec nsp n)"
  by (induction n) (auto intro: same_rules_list_map)

text \<open>
  Claim C3. A rules document with no element in the deprecated namespace is returned
  as it is and nothing is logged. A document with such an element is given to the
  namespace-update transform, whose result is returned, and exactly one warning is
  logged. With the transform as the specification describes it (and the two
  namespaces distinct), the result has no element in the deprecated namespace and
  its rules are structurally those of the input.
\<close>

theorem update_namespace_migrates:
  "(elements_in (old nsp) doc = [] \<longrightarrow> update_namespace nsp tr doc lg = (doc, lg))
   \<and> (elements_in (old nsp) doc \<noteq> [] \<longrightarrow>
        update_namespace nsp tr doc lg = (tr doc, lg @ [(WARNING, deprecation_message nsp)]))
   \<and> (elements_in (old nsp) doc \<noteq> [] \<and> old nsp \<noteq> xdv nsp \<longrightarrow>
        fst (update_namespace nsp (update_transform_spec nsp) doc lg) = update_transform_spec nsp doc
        \<and> elements_in (old nsp) (fst (update_namespace nsp (update_transform_spec nsp) doc lg)) = []
        \<and> same_rules nsp doc (fst (update_namespace nsp (update_transform_spec nsp) doc lg))
        \<and> length (snd (update_namespace nsp (update_transform_spec nsp) doc lg)) = length lg + 1)"
  by (simp add: update_namespace_def elements_in_update_transform_spec same_rules_update_transform_spec)

theorem update_namespace_migrates_witness:
  "elements_in ''http://openplans.org/deliverance''
     (Element ''http://openplans.org/deliverance'' ''rules'' [] None
           [Element ''http://openplans.org/deliverance'' ''copy'' [(''content'', ''//div''), (''theme'', ''//p'')] None []]) \<noteq> []
   \<and> update_namespace \<lparr> old = ''http://openplans.org/deliverance'', xdv = ''http://namespaces.plone.org/xdv'' \<rparr> (update_transform_spec \<lparr> old = ''http://openplans.org/deliverance'', xdv = ''http://namespaces.plone.org/xdv'' \<rparr>)
        (Element ''http://openplans.org/deliverance'' ''rules'' [] None
           [Element ''http://openplans.org/deliverance'' ''copy'' [(''content'', ''//div''), (''theme'', ''//p'')] None []])
        []
     = ((Element ''http://namespaces.plone.org/xdv'' ''rules'' [] None
           [Element ''http://namespaces.plone.org/xdv'' ''copy'' [(''content'', ''//div''), (''theme'', ''//p'')] None []]),
        [(WARNING, ''The http://openplans.org/deliverance namespace is deprecated, use http://namespaces.plone.org/xdv instead.'')])
   \<and> elements_in ''http://openplans.org/deliverance'' (Element ''http://namespaces.plone.org/xdv'' ''rules'' [] None []) = []
   \<and> update_namespace \<lparr> old = ''http://openplans.org/deliverance'', xdv = ''http://namespaces.plone.org/xdv'' \<rparr> (update_transform_spec \<lparr> old = ''http://openplans.org/deliverance'', xdv = ''http://namespaces.plone.org/xdv'' \<rparr>) (Element ''http://namespaces.plone.org/xdv'' ''rules'' [] None []) []
     = ((Element ''http://namespaces.plone.org/xdv'' ''rules'' [] None []), [])"
  using update_namespace_migrates
          [of "\<lparr> old = ''http://openplans.org/deliverance'', xdv = ''http://namespaces.plone.org/xdv'' \<rparr>"
              "(Element ''http://openplans.org/deliverance'' ''rules'' [] None
           [Element ''http://openplans.org/deliverance'' ''copy'' [(''content'', ''//div''), (''theme'', ''//p'')] None []])"
              "update_transform_spec \<lparr> old = ''http://openplans.org/deliverance'', xdv = ''http://namespaces.plone.org/xdv'' \<rparr>" "[]"]
        update_namespace_migrates
          [of "\<lparr> old = ''http://openplans.org/deliverance'', xdv = ''http://namespaces.plone.org/xdv'' \<rparr>" "(Element ''http://namespaces.plone.org/xdv'' ''rules'' [] None [])"
              "update_transform_spec \<lparr> old = ''http://openplans.org/deliverance'', xdv = ''http://namespaces.plone.org/xdv'' \<rparr>" "[]"]
  by (simp add: deprecation_message_def)


section \<open>Properties of the resolvers\<close>

text \<open>
  Claim C4. \<open>CompileResolver.resolve\<close> answers the rules slot \<open>__xdv__rules\<close> with the
  registered rules bytes, answers the extra slot \<open>__xdv__extra\<close> with the extra bytes
  when they were supplied, and declines (returns \<open>None\<close>) for the extra slot without
  extra bytes and for every other identifier.
\<close>

theorem CompileResolver_resolve_slots:
  "CompileResolver_resolve r e ''__xdv__rules'' = Some (ResolveString r)
   \<and> CompileResolver_resolve r (Some x) ''__xdv__extra'' = Some (ResolveString x)
   \<and> CompileResolver_resolve r None ''__xdv__extra'' = None
   \<and> (url \<noteq> ''__xdv__rules'' \<and> url \<noteq> ''__xdv__extra'' \<longrightarrow> CompileResolver_resolve r e url = None)
   \<and> resolve h (CompileResolver r e) url = CompileResolver_resolve r e url"
  by simp

theorem CompileResolver_resolve_slots_witness:
  "''theme.html'' \<noteq> ''__xdv__rules'' \<and> ''theme.html'' \<noteq> ''__xdv__extra''
   \<and> CompileResolver_resolve ''<rules/>'' (Some ''<extra/>'') ''theme.html'' = None
   \<and> CompileResolver_resolve ''<rules/>'' (Some ''<extra/>'') ''__xdv__rules'' = Some (ResolveString ''<rules/>'')
   \<and> CompileResolver_resolve ''<rules/>'' (Some ''<extra/>'') ''__xdv__extra'' = Some (ResolveString ''<extra/>'')
   \<and> CompileResolver_resolve ''<rules/>'' None ''__xdv__extra'' = None"
  using CompileResolver_resolve_slots[of "''<rules/>''" "Some ''<extra/>''" "''<extra/>''" "''theme.html''" posixpath]
  by simp

text \<open>
  Claim C7. \<open>RunResolver.resolve\<close> hands a URL that contains \<open>://\<close> or starts with
  \<open>/\<close> to \<open>resolve_filename\<close> as it is; every other URL is joined to the base
  directory with the host's \<open>os.path.join\<close> first. On a POSIX host the join of a
  directory and such a relative URL is the two with one slash between them (none
  when the directory is empty or ends with a slash).
\<close>

theorem RunResolver_resolve_relative:
  "(contains ''://'' url \<or> startswith url ''/'' \<longrightarrow>
      resolve h (RunResolver d) url = Some (ResolveFilename url))
   \<and> (\<not> contains ''://'' url \<and> \<not> startswith url ''/'' \<longrightarrow>
      resolve h (RunResolver d) url = Some (ResolveFilename (join_path h d url))
      \<and> join_path posixpath d url = (if d = [] \<or> endswith d ''/'' then d @ url else d @ ''/'' @ url))"
  by (simp add: posixpath_def posix_join_def)


theorem RunResolver_resolve_relative_witness:
  "\<not> contains ''://'' ''images/logo.png'' \<and> \<not> startswith ''images/logo.png'' ''/''
   \<and> resolve posixpath (RunResolver ''/var/www'') ''images/logo.png''
       = Some (ResolveFilename ''/var/www/images/logo.png'')
   \<and> startswith ''/etc/passwd'' ''/''
   \<and> resolve posixpath (RunResolver ''/var/www'') ''/etc/passwd'' = Some (ResolveFilename ''/etc/passwd'')
   \<and> contains ''://'' ''http://example.org/a.html''
   \<and> resolve posixpath (RunResolver ''/var/www'') ''http://example.org/a.html''
       = Some (ResolveFilename ''http://example.org/a.html'')"
  using RunResolver_resolve_relative[of "''images/logo.png''" posixpath "''/var/www''"]
        RunResolver_resolve_relative[of "''/etc/passwd''" posixpath "''/var/www''"]
        RunResolver_resolve_relative[of "''http://example.org/a.html''" posixpath "''/var/www''"]
  by (simp add: posixpath_def endswith_def)


section \<open>Properties of \<open>IMPORT_STYLESHEET\<close>\<close>

text \<open>
  A match splits the text into the three groups and the rest, and group 2 is not
  empty; a substitution that puts the groups back leaves the text as it was, so a
  substitution changes a text only where group 2 of a match stands.
\<close>

lemma literal_ignorecase_splits: "literal_ignorecase ps s = Some (m, r) \<Longrightarrow> s = m @ r"
  by (induction ps s arbitrary: m r rule: literal_ignorecase.induct)
     (auto split: if_splits option.splits)

lemma match_group3_splits: "match_group3 s = Some (g, r) \<Longrightarrow> s = g @ r"
  by (induction s rule: match_group3.induct) (auto split: if_splits)

lemma greedy_dots_splits: "greedy_dots s = Some (g2, g3, r) \<Longrightarrow> s = g2 @ g3 @ r"
  by (induction s arbitrary: g2 g3 r)
     (auto split: if_splits option.splits dest: match_group3_splits)

lemma match_group2_splits: "match_group2 s = Some (g2, g3, r) \<Longrightarrow> s = g2 @ g3 @ r"
  by (cases s) (auto split: if_splits option.splits dest: greedy_dots_splits)

lemma after_group1_splits:
  "after_group1 g s = Some (g1, g2, g3, r) \<Longrightarrow> g1 = g \<and> s = g2 @ g3 @ r"
  by (auto simp: after_group1_def split: option.splits dest: match_group2_splits)

lemma IMPORT_STYLESHEET_match_splits:
  assumes "IMPORT_STYLESHEET_match s = Some (g1, g2, g3, r)"
  shows "s = g1 @ g2 @ g3 @ r"
proof -
  from assms obtain m r1 where m: "literal_ignorecase at_import s = Some (m, r1)"
    by (auto simp: IMPORT_STYLESHEET_match_def split: option.splits)
  define ws where "ws = takeWhile is_space r1"
  define d where "d = dropWhile is_space r1"
  have r1: "r1 = ws @ d" by (simp add: ws_def d_def)
  from m have s: "s = m @ r1" by (rule literal_ignorecase_splits)
  show ?thesis
  proof (cases "literal_ignorecase url_paren d")
    case None
    with assms m obtain q r3 where "d = q # r3" "after_group1 (m @ ws @ [q]) r3 = Some (g1, g2, g3, r)"
      by (auto simp: IMPORT_STYLESHEET_match_def ws_def[symmetric] d_def[symmetric]
               split: if_splits list.splits)
    with s r1 show ?thesis by (auto dest!: after_group1_splits)
  next
    case (Some ur)
    obtain u r3 where ur: "ur = (u, r3)" by (cases ur)
    with Some have du: "d = u @ r3" by (auto dest: literal_ignorecase_splits)
    from assms m Some ur
    consider q r4 where "r3 = q # r4" "after_group1 (m @ ws @ u @ [q]) r4 = Some (g1, g2, g3, r)"
      | "after_group1 (m @ ws @ u) r3 = Some (g1, g2, g3, r)"
      by (auto simp: IMPORT_STYLESHEET_match_def ws_def[symmetric] d_def[symmetric]
               split: if_splits list.splits option.splits)
    then show ?thesis
    proof cases
      case 1
      with s r1 du show ?thesis by (auto dest!: after_group1_splits)
    next
      case 2
      with s r1 du show ?thesis by (auto dest!: after_group1_splits)
    qed
  qed
qed

lemma IMPORT_STYLESHEET_match_at: "c \<noteq> CHR ''@'' \<Longrightarrow> IMPORT_STYLESHEET_match (c # cs) = None"
  by (simp add: IMPORT_STYLESHEET_match_def at_import_def)

lemma IMPORT_STYLESHEET_match_nonempty:
  "IMPORT_STYLESHEET_match s = Some (g1, g2, g3, r) \<Longrightarrow> g2 \<noteq> []"
  by (auto simp: IMPORT_STYLESHEET_match_def after_group1_def
           split: option.splits if_splits list.splits elim!: match_group2.elims)

lemma sub_scan_identity: "sub_scan (\<lambda>g1 g2 g3. g1 @ g2 @ g3) k s = drop k s"
proof (induction s arbitrary: k)
  case Nil
  then show ?case by simp
next
  case (Cons c cs)
  show ?case
  proof (cases "k = 0")
    case False
    then obtain j where "k = Suc j" by (cases k) auto
    with Cons show ?thesis by simp
  next
    case True
    show ?thesis
    proof (cases "IMPORT_STYLESHEET_match (c # cs)")
      case None
      with True Cons show ?thesis by simp
    next
      case (Some res)
      obtain g1 g2 g3 r where res: "res = (g1, g2, g3, r)" by (cases res)
      with Some have sp: "c # cs = g1 @ g2 @ g3 @ r"
        by (auto dest: IMPORT_STYLESHEET_match_splits)
      have ne: "g1 @ g2 @ g3 \<noteq> []"
        using Some res IMPORT_STYLESHEET_match_nonempty[of "c # cs" g1 g2 g3 r] by simp
      then obtain x xs where x: "g1 @ g2 @ g3 = x # xs" by (cases "g1 @ g2 @ g3") auto
      with sp have cs: "cs = xs @ r" and "c = x"
        by (metis append.assoc append_Cons list.inject)+
      have len: "length g1 + length g2 + length g3 - 1 = length xs"
        using x by (metis One_nat_def add.assoc diff_Suc_1 length_Cons length_append)
      have "sub_scan (\<lambda>g1 g2 g3. g1 @ g2 @ g3) 0 (c # cs)
              = (g1 @ g2 @ g3) @ drop (length xs) cs"
        using Some res Cons[of "length xs"] len by simp
      also have "\<dots> = c # cs" using x cs \<open>c = x\<close> by simp
      finally show ?thesis using True by simp
    qed
  qed
qed

lemma IMPORT_STYLESHEET_sub_identity: "IMPORT_STYLESHEET_sub (\<lambda>g1 g2 g3. g1 @ g2 @ g3) s = s"
  by (simp add: IMPORT_STYLESHEET_sub_def sub_scan_identity)

lemma startswith_append: "startswith s p \<Longrightarrow> \<exists>r. s = p @ r"
  by (induction s p rule: startswith.induct) auto

lemma IMPORT_STYLESHEET_sub_keeps_if_IE:
  assumes "startswith t ''[if IE''"
  shows "startswith (IMPORT_STYLESHEET_sub f t) ''[if IE''"
proof -
  from assms obtain r where "t = ''[if IE'' @ r" by (auto dest: startswith_append)
  then show ?thesis
    by (simp add: IMPORT_STYLESHEET_sub_def IMPORT_STYLESHEET_match_at)
qed



section \<open>Properties of \<open>apply_absolute_prefix\<close>\<close>

lemma loop_body_style:
  "loop_body h p (Element [] ''style'' attrs tx cs) =
     (case tx of
        None \<Rightarrow> Inl (TypeError ''expected string or buffer'')
      | Some s \<Rightarrow> Inr (Element [] ''style'' attrs (Some (IMPORT_STYLESHEET_sub (import_repl h p) s)) cs))"
  by simp

lemma loop_body_src:
  assumes "name = ''img'' \<or> name = ''script'' \<or> name = ''input''"
  shows "loop_body h p (Element [] name attrs tx cs) =
     Inr (Element [] name
            (case get_attr attrs ''src'' of
               None \<Rightarrow> attrs
             | Some v \<Rightarrow> if v \<noteq> [] then set_attr attrs ''src'' (to_absolute h v p) else attrs)
            tx cs)"
  using assms by (elim disjE) (simp_all split: option.splits)

lemma loop_body_link:
  "loop_body h p (Element [] ''link'' attrs tx cs) =
     Inr (Element [] ''link''
            (case get_attr attrs ''href'' of
               None \<Rightarrow> attrs
             | Some v \<Rightarrow> if v \<noteq> [] then set_attr attrs ''href'' (to_absolute h v p) else attrs)
            tx cs)"
  by (simp split: option.splits)

lemma selected_cases:
  assumes "selected (Element ns name attrs tx cs)"
  obtains "ns = []" "name = ''style''"
  | "ns = []" "name = ''link''"
  | "ns = []" "name = ''img'' \<or> name = ''script'' \<or> name = ''input''"
  using assms by auto

lemma rewrite_forest_raises_pointwise:
  "(\<And>n. n \<in> set ns \<Longrightarrow> (\<exists>e. rewrite_tree h p n = Inl e) = textless_style n)
   \<Longrightarrow> (\<exists>e. rewrite_forest h p ns = Inl e) = textless_style_list ns"
proof (induction ns)
  case Nil
  then show ?case by simp
next
  case (Cons n ns)
  have t: "(\<exists>e. rewrite_tree h p n = Inl e) = textless_style n"
    by (rule Cons.prems) simp
  have f: "(\<exists>e. rewrite_forest h p ns = Inl e) = textless_style_list ns"
    by (rule Cons.IH) (simp add: Cons.prems)
  from t f show ?case
    by (cases "rewrite_tree h p n"; cases "rewrite_forest h p ns") auto
qed

lemma rewrite_tree_unselected:
  "\<not> selected (Element ns name attrs tx cs) \<Longrightarrow>
   rewrite_tree h p (Element ns name attrs tx cs) =
     (case rewrite_forest h p cs of
        Inl e \<Rightarrow> Inl e
      | Inr ds \<Rightarrow> Inr (Element ns name attrs tx ds))"
  by (simp del: selected.simps loop_body.simps)

lemma rewrite_tree_selected:
  "loop_body h p (Element ns name attrs tx cs) = Inr (Element ns name attrs' tx' cs) \<Longrightarrow>
   selected (Element ns name attrs tx cs) \<Longrightarrow>
   rewrite_tree h p (Element ns name attrs tx cs) =
     (case rewrite_forest h p cs of
        Inl e \<Rightarrow> Inl e
      | Inr ds \<Rightarrow> Inr (Element ns name attrs' tx' ds))"
  by (simp del: selected.simps loop_body.simps)

lemma rewrite_tree_raises: "(\<exists>e. rewrite_tree h p n = Inl e) = textless_style n"
proof (induction n)
  case (Element ns name attrs tx cs)
  have f: "(\<exists>e. rewrite_forest h p cs = Inl e) = textless_style_list cs"
    by (rule rewrite_forest_raises_pointwise) (rule Element.IH)
  show ?case
  proof (cases "selected (Element ns name attrs tx cs)")
    case False
    then have ns: "\<not> (ns = [] \<and> name = ''style'')" by auto
    from f ns rewrite_tree_unselected[OF False, of h p] show ?thesis
      by (cases "rewrite_forest h p cs") auto
  next
    case True
    then show ?thesis
    proof (cases rule: selected_cases)
      case 1
      show ?thesis
      proof (cases tx)
        case None
        with 1 True show ?thesis
          by (simp add: loop_body_style del: loop_body.simps)
      next
        case (Some s)
        with 1 have "loop_body h p (Element ns name attrs tx cs) =
            Inr (Element ns name attrs (Some (IMPORT_STYLESHEET_sub (import_repl h p) s)) cs)"
          by (simp add: loop_body_style del: loop_body.simps)
        from rewrite_tree_selected[OF this True] f 1 Some show ?thesis
          by (cases "rewrite_forest h p cs") auto
      qed
    next
      case 2
      with loop_body_link[of h p attrs tx cs]
      obtain attrs' where "loop_body h p (Element ns name attrs tx cs) = Inr (Element ns name attrs' tx cs)"
        by simp
      from rewrite_tree_selected[OF this True] f 2 show ?thesis
        by (cases "rewrite_forest h p cs") auto
    next
      case 3
      with loop_body_src[of name h p attrs tx cs]
      obtain attrs' where "loop_body h p (Element ns name attrs tx cs) = Inr (Element ns name attrs' tx cs)"
        by simp
      from rewrite_tree_selected[OF this True] f 3 show ?thesis
        by (cases "rewrite_forest h p cs") auto
    qed
  qed
next
  case (Comment t) then show ?case by simp
next
  case (ProcessingInstruction target t) then show ?case by simp
qed

lemma rewrite_forest_raises: "(\<exists>e. rewrite_forest h p ns = Inl e) = textless_style_list ns"
  by (rule rewrite_forest_raises_pointwise) (rule rewrite_tree_raises)


lemma apply_absolute_prefix_raises:
  "(\<exists>e. apply_absolute_prefix h doc p = Inl e)
     = (case doc of Element ns name attrs txt cs \<Rightarrow> textless_style_list cs | _ \<Rightarrow> False)"
proof (cases doc)
  case (Element ns name attrs tx cs)
  define q where "q = (if endswith p ''/'' then butlast p else p)"
  have "(\<exists>e. rewrite_forest h q cs = Inl e) = textless_style_list cs"
    by (rule rewrite_forest_raises)
  then show ?thesis
    using Element unfolding apply_absolute_prefix_def Let_def q_def
    by (cases "rewrite_forest h (if endswith p ''/'' then butlast p else p) cs") auto
next
  case (Comment t)
  then show ?thesis by (simp add: apply_absolute_prefix_def)
next
  case (ProcessingInstruction target t)
  then show ?thesis by (simp add: apply_absolute_prefix_def)
qed

lemma blank_set_attr:
  "get_attr attrs key = Some v \<Longrightarrow> blank_attr key (set_attr attrs key w) = blank_attr key attrs"
  by (induction attrs) (auto simp: get_attr_def blank_attr_def)

lemma rewrite_forest_skeleton_pointwise:
  "(\<And>n n'. n \<in> set ns \<Longrightarrow> rewrite_tree h p n = Inr n' \<Longrightarrow> skeleton n' = skeleton n)
   \<Longrightarrow> rewrite_forest h p ns = Inr ns' \<Longrightarrow> map skeleton ns' = map skeleton ns"
proof (induction ns arbitrary: ns')
  case Nil
  then show ?case by simp
next
  case (Cons n ns)
  from Cons.prems(2) obtain m ms where
    m: "rewrite_tree h p n = Inr m" and ms: "rewrite_forest h p ns = Inr ms" and ns': "ns' = m # ms"
    by (auto split: sum.splits)
  have "skeleton m = skeleton n" using m by (intro Cons.prems(1)) simp_all
  moreover have "map skeleton ms = map skeleton ns"
    using ms by (intro Cons.IH) (simp_all add: Cons.prems(1))
  ultimately show ?case using ns' by simp
qed

lemma blank_attr_rewritten:
  "blank_attr key (case get_attr attrs key of
                     None \<Rightarrow> attrs
                   | Some v \<Rightarrow> if v \<noteq> [] then set_attr attrs key (f v) else attrs)
     = blank_attr key attrs"
  by (auto simp: blank_set_attr split: option.splits)

lemma rewrite_tree_skeleton: "rewrite_tree h p n = Inr n' \<Longrightarrow> skeleton n' = skeleton n"
proof (induction n arbitrary: n')
  case (Element ns name attrs tx cs)
  have f: "map skeleton ds = map skeleton cs" if "rewrite_forest h p cs = Inr ds" for ds
    using that by (rule rewrite_forest_skeleton_pointwise[rotated]) (rule Element.IH)
  show ?case
  proof (cases "selected (Element ns name attrs tx cs)")
    case False
    with Element.prems rewrite_tree_unselected[OF False, of h p]
    obtain ds where "rewrite_forest h p cs = Inr ds" "n' = Element ns name attrs tx ds"
      by (auto split: sum.splits)
    with f False show ?thesis by auto
  next
    case True
    then show ?thesis
    proof (cases rule: selected_cases)
      case 1
      show ?thesis
      proof (cases tx)
        case None
        with 1 True Element.prems show ?thesis
          by (simp add: loop_body_style del: loop_body.simps)
      next
        case (Some s)
        with 1 have "loop_body h p (Element ns name attrs tx cs) =
            Inr (Element ns name attrs (Some (IMPORT_STYLESHEET_sub (import_repl h p) s)) cs)"
          by (simp add: loop_body_style del: loop_body.simps)
        from rewrite_tree_selected[OF this True] Element.prems
        obtain ds where "rewrite_forest h p cs = Inr ds"
          "n' = Element ns name attrs (Some (IMPORT_STYLESHEET_sub (import_repl h p) s)) ds"
          by (auto split: sum.splits)
        with f 1 show ?thesis by simp
      qed
    next
      case 2
      define attrs' where "attrs' = (case get_attr attrs ''href'' of
               None \<Rightarrow> attrs
             | Some v \<Rightarrow> if v \<noteq> [] then set_attr attrs ''href'' (to_absolute h v p) else attrs)"
      have b: "blank_attr ''href'' attrs' = blank_attr ''href'' attrs"
        unfolding attrs'_def by (rule blank_attr_rewritten)
      from 2 have "loop_body h p (Element ns name attrs tx cs) = Inr (Element ns name attrs' tx cs)"
        by (simp add: loop_body_link attrs'_def del: loop_body.simps)
      from rewrite_tree_selected[OF this True] Element.prems
      obtain ds where "rewrite_forest h p cs = Inr ds" "n' = Element ns name attrs' tx ds"
        by (auto split: sum.splits)
      with f 2 b show ?thesis by simp
    next
      case 3
      define attrs' where "attrs' = (case get_attr attrs ''src'' of
               None \<Rightarrow> attrs
             | Some v \<Rightarrow> if v \<noteq> [] then set_attr attrs ''src'' (to_absolute h v p) else attrs)"
      have b: "blank_attr ''src'' attrs' = blank_attr ''src'' attrs"
        unfolding attrs'_def by (rule blank_attr_rewritten)
      from 3 have "loop_body h p (Element ns name attrs tx cs) = Inr (Element ns name attrs' tx cs)"
        by (simp add: loop_body_src attrs'_def del: loop_body.simps)
      from rewrite_tree_selected[OF this True] Element.prems
      obtain ds where "rewrite_forest h p cs = Inr ds" "n' = Element ns name attrs' tx ds"
        by (auto split: sum.splits)
      with f 3 b show ?thesis by auto
    qed
  qed
next
  case (Comment t)
  then show ?case by (auto simp: IMPORT_STYLESHEET_sub_keeps_if_IE split: if_splits)
next
  case (ProcessingInstruction target t)
  then show ?case by simp
qed

lemma apply_absolute_prefix_skeleton:
  "apply_absolute_prefix h doc p = Inr doc' \<Longrightarrow>
   (case doc of
      Element ns name attrs tx cs \<Rightarrow>
        (case doc' of
           Element ns' name' attrs' tx' cs' \<Rightarrow>
             ns' = ns \<and> name' = name \<and> attrs' = attrs \<and> tx' = tx
               \<and> map skeleton cs' = map skeleton cs
         | _ \<Rightarrow> False)
    | _ \<Rightarrow> doc' = doc)"
proof (cases doc)
  case (Element ns name attrs tx cs)
  moreover assume "apply_absolute_prefix h doc p = Inr doc'"
  ultimately obtain ds where
    ds: "rewrite_forest h (if endswith p ''/'' then butlast p else p) cs = Inr ds"
    and doc': "doc' = Element ns name attrs tx ds"
    by (auto simp: apply_absolute_prefix_def Let_def split: sum.splits)
  from ds have "map skeleton ds = map skeleton cs"
    by (rule rewrite_forest_skeleton_pointwise[rotated]) (rule rewrite_tree_skeleton)
  with Element doc' show ?thesis by simp
next
  case (Comment t)
  moreover assume "apply_absolute_prefix h doc p = Inr doc'"
  ultimately show ?thesis by (auto simp: apply_absolute_prefix_def)
next
  case (ProcessingInstruction target t)
  moreover assume "apply_absolute_prefix h doc p = Inr doc'"
  ultimately show ?thesis by (auto simp: apply_absolute_prefix_def)
qed

text \<open>
  Claim C8. The claim: in a \<open>style\<close> element only the references inside \<open>@import\<close>
  constructs are rewritten and all other text stays byte for byte. The code: group 2
  of \<open>IMPORT_STYLESHEET\<close> is the greedy \<open>.+\<close>, which runs to the last quote or
  parenthesis of the line, and the whole of it goes through \<open>to_absolute\<close>. For the
  text \<open>@import url(a.css); p { background: url(img//b.png) }\<close> and the prefix
  \<open>/static\<close> group 2 is \<open>a.css); p { background: url(img//b.png\<close>, and the
  normalisation turns the \<open>img//b.png\<close> of the rule behind the import into
  \<open>img/b.png\<close>.
\<close>

theorem apply_absolute_prefix_rewrites_outside_import:
  "apply_absolute_prefix posixpath
     (Element [] ''html'' [] None
        [Element [] ''head'' [] None
           [Element [] ''style'' []
              (Some ''@import url(a.css); p { background: url(img//b.png) }'') []]])
     ''/static''
   = Inr (Element [] ''html'' [] None
        [Element [] ''head'' [] None
           [Element [] ''style'' []
              (Some ''@import url(/static/a.css); p { background: url(img/b.png) }'') []]])"
  by (simp add: apply_absolute_prefix_def endswith_def IMPORT_STYLESHEET_sub_def
        IMPORT_STYLESHEET_match_def at_import_def url_paren_def after_group1_def is_space_def is_quote_def
        squote_def dquote_def newline_def import_repl_def to_absolute_def posixpath_def
        posix_normpath_def initial_slashes_def norm_comps_def norm_step_def)

text \<open>
  Claim C10. The claim: \<open>apply_absolute_prefix\<close> never raises, also on a \<open>style\<close>
  element with no text. The code: the text of such an element is \<open>None\<close>, and
  \<open>IMPORT_STYLESHEET.sub\<close> on \<open>None\<close> raises \<open>TypeError\<close>; the \<open>src\<close> and \<open>href\<close>
  branches test for a missing value first, the \<open>style\<close> branch does not.
\<close>

theorem apply_absolute_prefix_empty_style:
  "apply_absolute_prefix posixpath
     (Element [] ''html'' [] None
        [Element [] ''head'' [] None [Element [] ''style'' [] None []],
         Element [] ''body'' [] None []])
     ''/static''
   = Inl (TypeError ''expected string or buffer'')"
  by (simp add: apply_absolute_prefix_def endswith_def)



section \<open>Properties of \<open>compile_theme\<close>\<close>

lemma prepare_rules_access_control [simp]:
  "prepare_rules lib (a\<lparr> access_control := x \<rparr>) lg = prepare_rules lib a lg"
  by (simp add: prepare_rules_def)

lemma prepare_theme_access_control [simp]:
  "prepare_theme lib (a\<lparr> access_control := x \<rparr>) = prepare_theme lib a"
  by (simp add: prepare_theme_def cong: if_cong)

lemma make_resolver_access_control [simp]:
  "make_resolver lib (a\<lparr> access_control := x \<rparr>) d = make_resolver lib a d"
  by (simp add: make_resolver_def cong: if_cong)

lemma compile_params_access_control [simp]:
  "compile_params (a\<lparr> access_control := x \<rparr>) = compile_params a"
  by (simp add: compile_params_def cong: if_cong)

lemma prepare_rules_new_XSLT [simp]:
  "prepare_rules (lib\<lparr> new_XSLT := f \<rparr>) a lg = prepare_rules lib a lg"
  by (cases "rules a") (simp_all add: prepare_rules_def cong: if_cong)

lemma prepare_theme_new_XSLT [simp]:
  "prepare_theme (lib\<lparr> new_XSLT := f \<rparr>) a  = prepare_theme lib a"
  by (cases "theme a") (simp_all add: prepare_theme_def cong: if_cong)

lemma make_resolver_new_XSLT [simp]:
  "make_resolver (lib\<lparr> new_XSLT := f \<rparr>) a d = make_resolver lib a d"
  by (simp add: make_resolver_def)

text \<open>
  Claim C6. A call of \<open>compile_theme\<close> without an access policy is the call with the
  policy \<open>XSLTAccessControl(read_file=True, write_file=False, create_dir=False,
  read_network=False, write_network=False)\<close>, and it builds the transform under that
  policy only: replacing the constructor of transforms by one fixed to that policy
  changes nothing. The policy grants reading local files and denies the other four
  capabilities.
\<close>

theorem compile_theme_default_access_control:
  "compile_theme lib (a\<lparr> access_control := None \<rparr>) lg
     = compile_theme lib (a\<lparr> access_control := Some (XSLTAccessControl True False False False False) \<rparr>) lg
   \<and> compile_theme lib (a\<lparr> access_control := None \<rparr>) lg
     = compile_theme
         (lib\<lparr> new_XSLT := \<lambda>doc ac. new_XSLT lib doc (XSLTAccessControl True False False False False) \<rparr>)
         (a\<lparr> access_control := None \<rparr>) lg
   \<and> read_file (XSLTAccessControl True False False False False)
   \<and> \<not> write_file (XSLTAccessControl True False False False False)
   \<and> \<not> create_dir (XSLTAccessControl True False False False False)
   \<and> \<not> read_network (XSLTAccessControl True False False False False)
   \<and> \<not> write_network (XSLTAccessControl True False False False False)"
proof -
  have fields: "read_file (XSLTAccessControl True False False False False)
   \<and> \<not> write_file (XSLTAccessControl True False False False False)
   \<and> \<not> create_dir (XSLTAccessControl True False False False False)
   \<and> \<not> read_network (XSLTAccessControl True False False False False)
   \<and> \<not> write_network (XSLTAccessControl True False False False False)"
    by (simp add: XSLTAccessControl_def)
  have 1: "compile_theme lib (a\<lparr> access_control := None \<rparr>) lg
     = compile_theme lib (a\<lparr> access_control := Some (XSLTAccessControl True False False False False) \<rparr>) lg"
    by (simp add: compile_theme_def)
  have 2: "compile_theme lib (a\<lparr> access_control := None \<rparr>) lg
     = compile_theme
         (lib\<lparr> new_XSLT := \<lambda>doc ac. new_XSLT lib doc (XSLTAccessControl True False False False False) \<rparr>)
         (a\<lparr> access_control := None \<rparr>) lg"
    by (simp add: compile_theme_def)
  from 1 2 fields show ?thesis by simp
qed

lemma bind_case: "bind m f = (case m of Inl e \<Rightarrow> Inl e | Inr x \<Rightarrow> f x)"
  by (cases m) auto

lemma prepare_rules_log:
  "map_sum id fst (prepare_rules lib a lg1) = map_sum id fst (prepare_rules lib a lg2)"
  by (auto simp: prepare_rules_def bind_case update_namespace_def split: sum.splits)

lemma compile_theme_log:
  "map_sum id fst (compile_theme lib a lg1) = map_sum id fst (compile_theme lib a lg2)"
proof (cases "prepare_rules lib a lg1")
  case (Inl e)
  with prepare_rules_log[of lib a lg1 lg2] have "prepare_rules lib a lg2 = Inl e"
    by (cases "prepare_rules lib a lg2") auto
  with Inl show ?thesis by (simp add: compile_theme_def)
next
  case (Inr r)
  obtain d l1 where r: "r = (d, l1)" by (cases r)
  with Inr prepare_rules_log[of lib a lg1 lg2] obtain l2 where
    2: "prepare_rules lib a lg2 = Inr (d, l2)"
    by (cases "prepare_rules lib a lg2") auto
  show ?thesis
    using Inr r 2
    by (auto simp: compile_theme_def bind_case split: sum.splits)
qed

text \<open>
  Claim C9. The outcome of \<open>compile_theme\<close> (the exception, or the generated
  transform) is a function of its inputs: the libraries, the files they read and the
  arguments, which include the state of every parser object passed in. It does not
  depend on the state the module keeps between calls, the log; and a second call
  with the same inputs, made after the first in the state the first has left, has the
  outcome of the first.
\<close>

theorem compile_theme_deterministic:
  "map_sum id fst (compile_theme lib a lg1) = map_sum id fst (compile_theme lib a lg2)
   \<and> map_sum id fst (bind (compile_theme lib a lg1) (\<lambda>(compiled, lg, cp). compile_theme lib a lg))
       = map_sum id fst (compile_theme lib a lg1)"
proof
  show "map_sum id fst (compile_theme lib a lg1) = map_sum id fst (compile_theme lib a lg2)"
    by (rule compile_theme_log)
next
  show "map_sum id fst (bind (compile_theme lib a lg1) (\<lambda>(compiled, lg, cp). compile_theme lib a lg))
       = map_sum id fst (compile_theme lib a lg1)"
  proof (cases "compile_theme lib a lg1")
    case (Inl e)
    then show ?thesis by simp
  next
    case (Inr r)
    obtain c lg' cp where "r = (c, lg', cp)" by (cases r)
    with Inr show ?thesis
      using compile_theme_log[of lib a lg' lg1] by simp
  qed
qed


section \<open>Properties of \<open>run.main\<close>\<close>

text \<open>
  Claim C5. The claim: given a rules path, a theme and a content path, the runner
  calls \<open>compile_theme\<close> with the options and applies the result. The code: the call
  passes the keyword \<open>read_network\<close>, which \<open>compile_theme\<close> does not have (it has
  \<open>access_control\<close>), so the call raises \<open>TypeError\<close> and nothing is compiled or
  written, whether the rules path comes as the option or as the first of two
  arguments.
\<close>

theorem run_main_rules_path_raises:
  "run_main lib (options\<lparr> opt_xsl := None, opt_rules := Some r \<rparr>) [content] lg
     = Inl (TypeError (''compile_theme() got an unexpected keyword argument ''
                       @ [squote] @ ''read_network'' @ [squote]))
   \<and> run_main lib (options\<lparr> opt_xsl := None, opt_rules := None \<rparr>) [''rules.xml'', content] lg
     = Inl (TypeError (''compile_theme() got an unexpected keyword argument ''
                       @ [squote] @ ''read_network'' @ [squote]))"
  by (simp add: run_main_def run_arguments_def run_transform_def call_compile_theme_def
        compile_theme_parameters_def endswith_def lower_def lower_char_def)

end
